theory Spec2Isabelle
  imports Main
begin

section \<open>The backend route \<open>app/routes/api.backend.ts\<close>\<close>

subsection \<open>Environment and \<open>BACKEND_CONFIG\<close>\<close>

text \<open>
  \<open>process.env\<close> is a partial map from variable names to strings. The JavaScript
  expression \<open>process.env.X || ""\<close> yields the default when the variable is unset
  and also when it is set to the empty string (the only falsy string).
\<close>

type_synonym env = "string \<rightharpoonup> string"

definition or_default :: "string option \<Rightarrow> string \<Rightarrow> string" where
  "or_default v d = (case v of None \<Rightarrow> d | Some s \<Rightarrow> if s = [] then d else s)"

record service_config =
  url :: string
  description :: string

text \<open>
  The object literal of lines 20--45, in the order of its keys. Each entry has the two
  fields \<open>url\<close> and \<open>description\<close> and nothing else.
\<close>

definition BACKEND_CONFIG :: "env \<Rightarrow> (string \<times> service_config) list" where
  "BACKEND_CONFIG penv =
     [(''finance'',
         \<lparr>url = or_default (penv ''FINANCE_API_URL'') [],
          description = ''Financial data and currency analysis''\<rparr>),
      (''news'',
         \<lparr>url = or_default (penv ''NEWS_API_URL'') [],
          description = ''News sentiment analysis and market insights''\<rparr>),
      (''trends'',
         \<lparr>url = or_default (penv ''TRENDS_API_URL'') [],
          description = ''Google Trends and search analytics''\<rparr>),
      (''meta'',
         \<lparr>url = or_default (penv ''META_API_URL'') [],
          description = ''Meta/Facebook social media analytics''\<rparr>),
      (''tiktok'',
         \<lparr>url = or_default (penv ''TIKTOK_API_URL'') [],
          description = ''TikTok engagement and trend analysis''\<rparr>),
      (''weather'',
         \<lparr>url = or_default (penv ''WEATHER_API_URL'') [],
          description = ''Weather data and forecasting''\<rparr>)]"

definition service_names :: "string list" where
  "service_names = [''finance'', ''news'', ''trends'', ''meta'', ''tiktok'', ''weather'']"

text \<open>The environment variable read for each key (lines 22, 26, 30, 34, 38 and 42).\<close>

definition url_variables :: "(string \<times> string) list" where
  "url_variables =
     [(''finance'', ''FINANCE_API_URL''), (''news'', ''NEWS_API_URL''),
      (''trends'', ''TRENDS_API_URL''), (''meta'', ''META_API_URL''),
      (''tiktok'', ''TIKTOK_API_URL''), (''weather'', ''WEATHER_API_URL'')]"

subsection \<open>Property lookup \<open>BACKEND_CONFIG[service]\<close>\<close>

text \<open>
  \<open>BACKEND_CONFIG\<close> is an ordinary object literal, so the bracket lookup on line 62
  first searches the object's own keys and then its prototype, \<open>Object.prototype\<close>.
  The cast \<open>service as keyof typeof BACKEND_CONFIG\<close> is erased at run time. A key
  found on the prototype yields a function (or, for \<open>__proto__\<close>, the prototype object):
  a truthy value that has no \<open>url\<close> property. Any other key yields \<open>undefined\<close>.
\<close>

definition object_prototype_keys :: "string list" where
  "object_prototype_keys =
     [''constructor'', ''__defineGetter__'', ''__defineSetter__'', ''hasOwnProperty'',
      ''__lookupGetter__'', ''__lookupSetter__'', ''isPrototypeOf'',
      ''propertyIsEnumerable'', ''toString'', ''valueOf'', ''__proto__'',
      ''toLocaleString'']"

datatype js_value = Config service_config | Inherited | Undefined

definition get_property :: "(string \<times> service_config) list \<Rightarrow> string \<Rightarrow> js_value" where
  "get_property obj key =
     (case map_of obj key of
        Some c \<Rightarrow> Config c
      | None \<Rightarrow> if key \<in> set object_prototype_keys then Inherited else Undefined)"

text \<open>\<open>serviceConfig.url\<close>: the configured string, or \<open>undefined\<close> (here \<open>None\<close>).\<close>

fun url_of :: "js_value \<Rightarrow> string option" where
  "url_of (Config c) = Some (url c)"
| "url_of Inherited = None"
| "url_of Undefined = None"

subsection \<open>Request, form data and responses\<close>

text \<open>
  \<open>formData.get(name)\<close> is the first value stored under the name, or \<open>null\<close>
  (\<open>None\<close>). Used as a property key, \<open>null\<close> is the string \<open>"null"\<close>.
  A request carries whether \<open>authenticate.admin\<close> resolves for it and, when its body
  parses as form data, the list of its fields.
\<close>

type_synonym form_data = "(string \<times> string) list"

definition form_get :: "form_data \<Rightarrow> string \<Rightarrow> string option" where
  "form_get fd name = map_of fd name"

definition property_key :: "string option \<Rightarrow> string" where
  "property_key v = (case v of None \<Rightarrow> ''null'' | Some s \<Rightarrow> s)"

record request =
  admin_session :: bool
  form :: "form_data option"

text \<open>
  The body of the POST made by \<open>axios.post(serviceConfig.url, {query, timestamp})\<close>
  and the call itself. No third argument (request configuration, headers,
  credentials) is passed on line 68, so \<open>config\<close> is always \<open>None\<close>.
\<close>

record post_body =
  query :: "string option"
  timestamp :: string

record outbound =
  target :: "string option"
  payload :: post_body
  config :: "(string \<times> string) list option"

text \<open>
  What \<open>await axios.post(...)\<close> produces is decided by the world outside: either the
  call resolves with a response whose \<open>data\<close> is the adapter's JSON payload, or a
  value is thrown. The \<open>catch\<close> block distinguishes instances of \<open>Error\<close>, which carry
  a message, from every other thrown value.
\<close>

datatype thrown = Error string | NonError

type_synonym 'd http = "outbound \<Rightarrow> thrown + 'd"

datatype 'd body =
    ErrorBody string "string option"
  | SuccessBody 'd "string option"

record 'd response =
  content :: "'d body"
  status :: nat

definition json :: "'d body \<Rightarrow> nat \<Rightarrow> 'd response" where
  "json b st = \<lparr>content = b, status = st\<rparr>"

text \<open>
  The action either returns a response or, when \<open>authenticate.admin\<close> or
  \<open>request.formData()\<close> rejects (lines 56--57, outside the \<open>try\<close>), throws.
\<close>

datatype 'd outcome = Responded "'d response" | Threw

definition details_of :: "thrown \<Rightarrow> string" where
  "details_of e = (case e of Error m \<Rightarrow> m | NonError \<Rightarrow> ''Unknown error'')"

subsection \<open>The action\<close>

text \<open>
  \<open>action\<close> (lines 55--85). Its arguments besides the request are the environment, the
  behaviour of the network and the value of \<open>new Date().toISOString()\<close> at the call.
  Its result is the outcome together with the list of outbound calls it made, in order.
\<close>

definition action ::
  "env \<Rightarrow> 'd http \<Rightarrow> string \<Rightarrow> request \<Rightarrow> 'd outcome \<times> outbound list" where
  "action penv http now_iso req =
     (if \<not> admin_session req then (Threw, [])
      else case form req of
        None \<Rightarrow> (Threw, [])
      | Some formData \<Rightarrow>
         (let service = form_get formData ''service'';
              q = form_get formData ''query'';
              serviceConfig = get_property (BACKEND_CONFIG penv) (property_key service)
          in if serviceConfig = Undefined
             then (Responded (json (ErrorBody ''Invalid service selected'' None) 400), [])
             else
              (let call = \<lparr>target = url_of serviceConfig,
                           payload = \<lparr>query = q, timestamp = now_iso\<rparr>,
                           config = None\<rparr>
               in (case http call of
                     Inr d \<Rightarrow> (Responded (json (SuccessBody d service) 200), [call])
                   | Inl e \<Rightarrow>
                       (Responded
                          (json (ErrorBody ''Failed to connect to backend service''
                                   (Some (details_of e))) 500),
                        [call])))))"

text \<open>Concrete surroundings used in the examples below.\<close>

definition env0 :: env where
  "env0 = [''FINANCE_API_URL'' \<mapsto> ''http://finance.test/api'',
           ''FINANCE_API_KEY'' \<mapsto> ''secret'']"

definition adapter_up :: "string http" where
  "adapter_up c = Inr ''{}''"

definition adapter_down :: "string http" where
  "adapter_down c = Inl (Error ''connect ECONNREFUSED'')"

definition now0 :: string where
  "now0 = ''2024-01-01T00:00:00.000Z''"

definition post_form :: "form_data \<Rightarrow> request" where
  "post_form fd = \<lparr>admin_session = True, form = Some fd\<rparr>"

definition finance_form :: form_data where
  "finance_form = [(''service'', ''finance''), (''query'', ''not a snapshot'')]"

definition finance_call :: outbound where
  "finance_call =
     \<lparr>target = Some ''http://finance.test/api'',
      payload = \<lparr>query = Some ''not a snapshot'', timestamp = now0\<rparr>,
      config = None\<rparr>"


section \<open>The asynchronous job engine\<close>

text \<open>
  The Job API, the Orchestrator, the Job Store and the Aggregator belong to the Python
  backend of this repository (\<open>backend_api_backup/frontend_api\<close>), whose code is
  not available. The definitions of this section are therefore modelled from the
  specification, sentence by sentence; each says which sentence it follows.
\<close>

subsection \<open>Data model\<close>

text \<open>
  Modelled from the spec: the Job record's \<open>status\<close>, ``one of pending, running,
  completed, failed, timed\_out'' (the backend's job record is missing).
\<close>

datatype job_status = Pending | Running | Completed | Failed | TimedOut

text \<open>
  Modelled from the spec: the \<open>state\<close> of a SourceResult, ``pending, ok, error,
  timeout'' (the backend's per-source record is missing).
\<close>

datatype source_state = SrcPending | Ok | SrcError | SrcTimeout

text \<open>
  Modelled from the spec: the structured failures of an adapter, ``RateLimited,
  Unauthorized, Unreachable, SchemaViolation, Timeout'', and the RawResult of a fetch,
  ``either a success payload or a structured failure'' (the adapters are missing).
\<close>

datatype failure = RateLimited | Unauthorized | Unreachable | SchemaViolation | Timeout

datatype 'd raw_result = Success 'd | Failure failure

text \<open>
  Modelled from the spec: SourceResult with its fields \<open>state\<close>, \<open>data\<close> (``raw
  payload when ok; absent otherwise'') and \<open>error\<close> (``structured failure reason when
  error/timeout''). The adapter identity is the key under which the record is stored;
  the diagnostic \<open>latencyMs\<close> is left out.
\<close>

record 'd source_result =
  state :: source_state
  data :: "'d option"
  error :: "failure option"

text \<open>
  Modelled from the spec: CombinedInsight. The spec leaves the statistics behind
  \<open>perSourceSummary\<close>, \<open>crossSourceCorrelations\<close> and \<open>recommendations\<close> open, so
  they are one opaque value \<open>insights\<close>; \<open>degraded\<close> is ``true if one or more
  requested sources ended in error/timeout''.
\<close>

record 'i combined_insight =
  insights :: 'i
  degraded :: bool

text \<open>
  Modelled from the spec: the submitted query, ``commerce snapshot + natural-language
  text'', together with the sources it requests.
\<close>

record 's analysis_query =
  requested :: "string list"
  snapshot :: 's
  question :: string

text \<open>
  Modelled from the spec: the Job record (\<open>id\<close>, \<open>status\<close>, \<open>progress\<close>,
  \<open>query\<close>, \<open>sourceResults\<close>, \<open>combinedInsight\<close>). \<open>sourceResults\<close> is keyed by
  source name, one entry per requested source. The timestamps \<open>createdAt\<close> and
  \<open>completedAt\<close> are left out.
\<close>

record ('s, 'd, 'i) job =
  job_id :: nat
  job_status :: job_status
  progress :: int
  job_query :: "'s analysis_query"
  sourceResults :: "(string \<times> 'd source_result) list"
  combinedInsight :: "'i combined_insight option"

text \<open>
  Modelled from the spec: the Job Store, ``durable record of job state''; identifiers
  are ``generated at submission'' and unique, here by a counter.
\<close>

record ('s, 'd, 'i) store =
  jobs :: "nat \<rightharpoonup> ('s, 'd, 'i) job"
  next_id :: nat

text \<open>
  Modelled from the spec: what the spec does not fix is a parameter of the engine: the
  well-formedness of a commerce snapshot (section 6) and the insight computation of the
  Aggregator (whose formulas are a stated non-goal).
\<close>

record ('s, 'd, 'i) engine =
  well_formed :: "'s \<Rightarrow> bool"
  insight_of :: "(string \<times> 'd source_result) list \<Rightarrow> 'i"

text \<open>Modelled from the spec: the error taxonomy surfaced to callers (section 7).\<close>

datatype api_error = InvalidQuery | JobNotFound

definition empty_store :: "('s, 'd, 'i) store" where
  "empty_store = \<lparr>jobs = Map.empty, next_id = 0\<rparr>"

subsection \<open>Job Store\<close>

text \<open>
  Modelled from the spec: ``Operations: create(job), update(jobId, mutation), get(jobId).
  Fails with JobNotFound on unknown id for update/get.''
\<close>

definition create :: "('s, 'd, 'i) store \<Rightarrow> ('s, 'd, 'i) job \<Rightarrow> ('s, 'd, 'i) store" where
  "create s j = s\<lparr>jobs := (jobs s)(job_id j \<mapsto> j)\<rparr>"

definition get :: "('s, 'd, 'i) store \<Rightarrow> nat \<Rightarrow> api_error + ('s, 'd, 'i) job" where
  "get s i = (case jobs s i of None \<Rightarrow> Inl JobNotFound | Some j \<Rightarrow> Inr j)"

definition update ::
  "('s, 'd, 'i) store \<Rightarrow> nat \<Rightarrow> (('s, 'd, 'i) job \<Rightarrow> ('s, 'd, 'i) job) \<Rightarrow>
     api_error + ('s, 'd, 'i) store" where
  "update s i f =
     (case jobs s i of
        None \<Rightarrow> Inl JobNotFound
      | Some j \<Rightarrow> Inr (s\<lparr>jobs := (jobs s)(i \<mapsto> f j)\<rparr>))"

subsection \<open>Per-source bookkeeping\<close>

text \<open>
  Modelled from the spec: the terminal per-source states are ``ok, error, timeout''
  (glossary).
\<close>

fun terminal :: "source_state \<Rightarrow> bool" where
  "terminal SrcPending = False"
| "terminal Ok = True"
| "terminal SrcError = True"
| "terminal SrcTimeout = True"

definition completedCount :: "(string \<times> 'd source_result) list \<Rightarrow> nat" where
  "completedCount rs = length (filter (\<lambda>(n, r). terminal (state r)) rs)"

definition all_terminal :: "(string \<times> 'd source_result) list \<Rightarrow> bool" where
  "all_terminal rs = list_all (\<lambda>(n, r). terminal (state r)) rs"

definition any_succeeded :: "(string \<times> 'd source_result) list \<Rightarrow> bool" where
  "any_succeeded rs = list_ex (\<lambda>(n, r). state r = Ok) rs"

definition any_failed :: "(string \<times> 'd source_result) list \<Rightarrow> bool" where
  "any_failed rs = list_ex (\<lambda>(n, r). state r = SrcError \<or> state r = SrcTimeout) rs"

text \<open>
  Modelled from the spec: ``progress is recomputed as
  round(100 * completedCount / totalSources)'', rounding to the nearest integer with
  halves up, in integer arithmetic.
\<close>

definition percent :: "nat \<Rightarrow> nat \<Rightarrow> int" where
  "percent c n = (200 * int c + int n) div (2 * int n)"

text \<open>
  Modelled from the spec: how a resolved adapter call is recorded: a success payload as
  \<open>ok\<close> with its data; a failure as \<open>timeout\<close> when the reason is Timeout and as
  \<open>error\<close> otherwise, with the reason.
\<close>

fun record_result :: "'d raw_result \<Rightarrow> 'd source_result" where
  "record_result (Success d) = \<lparr>state = Ok, data = Some d, error = None\<rparr>"
| "record_result (Failure Timeout) = \<lparr>state = SrcTimeout, data = None, error = Some Timeout\<rparr>"
| "record_result (Failure f) = \<lparr>state = SrcError, data = None, error = Some f\<rparr>"

definition pending_result :: "'d source_result" where
  "pending_result = \<lparr>state = SrcPending, data = None, error = None\<rparr>"


subsection \<open>Orchestrator\<close>

text \<open>
  Modelled from the spec: \<open>submit\<close> ``validates the query (must name at least one
  requested source; commerce snapshot must be well-formed per section 6); fails with
  InvalidQuery otherwise. Creates the Job record in pending, then asynchronously begins
  dispatch.'' The key set of \<open>sourceResults\<close> is the set of requested sources, each
  once; dispatch is a later event of its own.
\<close>

definition new_job :: "nat \<Rightarrow> 's analysis_query \<Rightarrow> ('s, 'd, 'i) job" where
  "new_job i q =
     \<lparr>job_id = i, job_status = Pending, progress = 0, job_query = q,
      sourceResults = map (\<lambda>n. (n, pending_result)) (remdups (requested q)),
      combinedInsight = None\<rparr>"

definition submit ::
  "('s, 'd, 'i) engine \<Rightarrow> ('s, 'd, 'i) store \<Rightarrow> 's analysis_query \<Rightarrow>
     (api_error + nat) \<times> ('s, 'd, 'i) store" where
  "submit eng s q =
     (if requested q = [] \<or> \<not> well_formed eng (snapshot q) then (Inl InvalidQuery, s)
      else (Inr (next_id s), (create s (new_job (next_id s) q))\<lparr>next_id := Suc (next_id s)\<rparr>))"

text \<open>
  Modelled from the spec: the Aggregator's verdict. It marks \<open>degraded\<close> ``if
  sourceResults contains any non-ok entry'', and there is an AggregationFailure when
  ``zero sources succeeded'': then no CombinedInsight is produced.
\<close>

definition aggregate ::
  "('s, 'd, 'i) engine \<Rightarrow> (string \<times> 'd source_result) list \<Rightarrow> 'i combined_insight option" where
  "aggregate eng rs =
     (if any_succeeded rs
      then Some \<lparr>insights = insight_of eng rs, degraded = any_failed rs\<rparr>
      else None)"

text \<open>
  Modelled from the spec: ``its output determines the job's terminal status: completed
  if at least one source succeeded, failed if all sources ended in error/timeout and
  aggregation therefore has nothing to summarize.''
\<close>

definition finish :: "('s, 'd, 'i) engine \<Rightarrow> ('s, 'd, 'i) job \<Rightarrow> ('s, 'd, 'i) job" where
  "finish eng j =
     (case aggregate eng (sourceResults j) of
        Some ci \<Rightarrow> j\<lparr>job_status := Completed, combinedInsight := Some ci\<rparr>
      | None \<Rightarrow> j\<lparr>job_status := Failed\<rparr>)"

text \<open>
  Modelled from the spec: \<open>dispatch\<close> ``transitions to running'' (from \<open>pending\<close>; no
  other state is left by it).
\<close>

definition dispatch :: "('s, 'd, 'i) job \<Rightarrow> ('s, 'd, 'i) job" where
  "dispatch j = (if job_status j = Pending then j\<lparr>job_status := Running\<rparr> else j)"

text \<open>
  Modelled from the spec: ``As each adapter call resolves (success, provider error, or
  timeout), the corresponding SourceResult is updated atomically and progress is
  recomputed. When every source reaches a terminal per-source state, the Aggregator is
  invoked synchronously within the same execution context.'' A fetch is in flight only
  for a running job and a source still pending; any other resolution changes nothing
  (the key set is fixed, terminal states are final).
\<close>

definition set_result ::
  "string \<Rightarrow> 'd source_result \<Rightarrow> (string \<times> 'd source_result) list \<Rightarrow>
     (string \<times> 'd source_result) list" where
  "set_result n r rs = map (\<lambda>(m, old). if m = n then (m, r) else (m, old)) rs"

definition resolve ::
  "('s, 'd, 'i) engine \<Rightarrow> string \<Rightarrow> 'd raw_result \<Rightarrow> ('s, 'd, 'i) job \<Rightarrow> ('s, 'd, 'i) job" where
  "resolve eng n raw j =
     (if job_status j = Running \<and>
         map_option state (map_of (sourceResults j) n) = Some SrcPending
      then
        let rs = set_result n (record_result raw) (sourceResults j);
            j' = j\<lparr>sourceResults := rs,
                   progress := percent (completedCount rs) (length rs)\<rparr>
        in if all_terminal rs then finish eng j' else j'
      else j)"

text \<open>
  Modelled from the spec: ``An overall job-level timeout forces transition to
  timed\_out, short-circuiting any adapters still outstanding; their results are recorded
  as timeout retroactively.'' Terminal job states are final.
\<close>

definition expire_result :: "'d source_result \<Rightarrow> 'd source_result" where
  "expire_result r =
     (if state r = SrcPending then \<lparr>state = SrcTimeout, data = None, error = Some Timeout\<rparr>
      else r)"

definition job_timeout :: "('s, 'd, 'i) job \<Rightarrow> ('s, 'd, 'i) job" where
  "job_timeout j =
     (if job_status j = Pending \<or> job_status j = Running
      then j\<lparr>job_status := TimedOut,
              sourceResults := map (\<lambda>(n, r). (n, expire_result r)) (sourceResults j)\<rparr>
      else j)"

text \<open>
  Modelled from the spec: \<open>status(jobId)\<close>, ``read-only, never mutates state; fails
  with JobNotFound if the id is unknown''. The store is returned beside the answer so
  that the absence of any write is a statement about the model.
\<close>

definition status_of ::
  "('s, 'd, 'i) store \<Rightarrow> nat \<Rightarrow> (api_error + ('s, 'd, 'i) job) \<times> ('s, 'd, 'i) store" where
  "status_of s i = (get s i, s)"

text \<open>
  Modelled from the spec: the polling endpoint \<open>GET /api/chat/status/{job_id}\<close>:
  ``Unknown job\_id yields 404''; otherwise the job's status and progress, with the
  result ``present only when status is a terminal value''.
\<close>

record 'i poll_response =
  http_code :: nat
  poll_status :: "job_status option"
  poll_progress :: "int option"
  result :: "'i combined_insight option"

definition poll :: "('s, 'd, 'i) store \<Rightarrow> nat \<Rightarrow> 'i poll_response" where
  "poll s i =
     (case fst (status_of s i) of
        Inl e \<Rightarrow> \<lparr>http_code = 404, poll_status = None, poll_progress = None, result = None\<rparr>
      | Inr j \<Rightarrow>
          \<lparr>http_code = 200, poll_status = Some (job_status j),
           poll_progress = Some (progress j),
           result = (if job_status j = Completed \<or> job_status j = Failed \<or>
                        job_status j = TimedOut
                     then combinedInsight j else None)\<rparr>)"

subsection \<open>The engine as a transition system\<close>

text \<open>
  Modelled from the spec: everything that can happen to the engine, one event at a
  time (the Job Store serializes updates): a submission, the start of dispatch for a
  job, the resolution of one adapter call, the job-level timeout, and a poll. Each
  event yields what its caller sees and the store afterwards.
\<close>

datatype ('s, 'd) event =
    Submit "'s analysis_query"
  | Dispatch nat
  | Resolve nat string "'d raw_result"
  | JobTimeout nat
  | Status nat

datatype ('s, 'd, 'i) reply =
    Accepted nat
  | Refused api_error
  | Snapshot "('s, 'd, 'i) job"
  | Done

definition mutate ::
  "('s, 'd, 'i) store \<Rightarrow> nat \<Rightarrow> (('s, 'd, 'i) job \<Rightarrow> ('s, 'd, 'i) job) \<Rightarrow>
     ('s, 'd, 'i) reply \<times> ('s, 'd, 'i) store" where
  "mutate s i f = (case update s i f of Inl e \<Rightarrow> (Refused e, s) | Inr s' \<Rightarrow> (Done, s'))"

fun step ::
  "('s, 'd, 'i) engine \<Rightarrow> ('s, 'd, 'i) store \<Rightarrow> ('s, 'd) event \<Rightarrow>
     ('s, 'd, 'i) reply \<times> ('s, 'd, 'i) store" where
  "step eng s (Submit q) =
     (case submit eng s q of (Inl e, s') \<Rightarrow> (Refused e, s') | (Inr i, s') \<Rightarrow> (Accepted i, s'))"
| "step eng s (Dispatch i) = mutate s i dispatch"
| "step eng s (Resolve i n raw) = mutate s i (resolve eng n raw)"
| "step eng s (JobTimeout i) = mutate s i job_timeout"
| "step eng s (Status i) =
     (case status_of s i of (Inl e, s') \<Rightarrow> (Refused e, s') | (Inr j, s') \<Rightarrow> (Snapshot j, s'))"

fun run ::
  "('s, 'd, 'i) engine \<Rightarrow> ('s, 'd, 'i) store \<Rightarrow> ('s, 'd) event list \<Rightarrow>
     ('s, 'd, 'i) reply list \<times> ('s, 'd, 'i) store" where
  "run eng s [] = ([], s)"
| "run eng s (ev # evs) =
     (case step eng s ev of
        (out, s') \<Rightarrow> (case run eng s' evs of (outs, s'') \<Rightarrow> (out # outs, s'')))"

text \<open>A concrete engine and the scenario of the specification's section 8.\<close>

definition eng0 :: "(string, string, nat) engine" where
  "eng0 = \<lparr>well_formed = (\<lambda>s. s \<noteq> []), insight_of = length\<rparr>"

definition query0 :: "string analysis_query" where
  "query0 = \<lparr>requested = [''finance'', ''news''], snapshot = ''{Products: []}'',
             question = ''what sells''\<rparr>"

definition scenario :: "(string, string) event list" where
  "scenario = [Submit query0, Dispatch 0, Resolve 0 ''finance'' (Success ''{}''), JobTimeout 0]"

subsection \<open>Invariants of the engine\<close>

text \<open>
  What holds of every job the engine can hold, by status: a pending job has resolved
  nothing; a running job has a source outstanding and shows the recomputed progress; a
  completed job has a successful source and carries the Aggregator's insight; a failed
  job has none and carries no insight.
\<close>

definition job_inv :: "('s, 'd, 'i) engine \<Rightarrow> ('s, 'd, 'i) job \<Rightarrow> bool" where
  "job_inv eng j =
     (sourceResults j \<noteq> [] \<and> 0 \<le> progress j \<and> progress j \<le> 100 \<and>
      (case job_status j of
         Pending \<Rightarrow>
           completedCount (sourceResults j) = 0 \<and> progress j = 0 \<and>
           combinedInsight j = None
       | Running \<Rightarrow>
           \<not> all_terminal (sourceResults j) \<and>
           progress j = percent (completedCount (sourceResults j)) (length (sourceResults j)) \<and>
           combinedInsight j = None
       | Completed \<Rightarrow>
           any_succeeded (sourceResults j) \<and>
           combinedInsight j = aggregate eng (sourceResults j)
       | Failed \<Rightarrow> \<not> any_succeeded (sourceResults j) \<and> combinedInsight j = None
       | TimedOut \<Rightarrow> True))"

text \<open>Every stored job satisfies the invariant, and no identifier is stored before it is issued.\<close>

definition store_inv :: "('s, 'd, 'i) engine \<Rightarrow> ('s, 'd, 'i) store \<Rightarrow> bool" where
  "store_inv eng s =
     ((\<forall>i j. jobs s i = Some j \<longrightarrow> job_inv eng j) \<and>
      (\<forall>k. next_id s \<le> k \<longrightarrow> jobs s k = None))"

text \<open>The job that the scenario leaves in the store.\<close>

definition scenario_job :: "(string, string, nat) job" where
  "scenario_job =
     \<lparr>job_id = 0, job_status = TimedOut, progress = 50, job_query = query0,
      sourceResults =
        [(''finance'', \<lparr>state = Ok, data = Some ''{}'', error = None\<rparr>),
         (''news'', \<lparr>state = SrcTimeout, data = None, error = Some Timeout\<rparr>)],
      combinedInsight = None\<rparr>"

text \<open>A second run, in which both sources resolve before any job-level timeout.\<close>

definition degraded_run :: "(string, string) event list" where
  "degraded_run =
     [Submit query0, Dispatch 0, Resolve 0 ''finance'' (Success ''{}''),
      Resolve 0 ''news'' (Failure Unreachable)]"

definition degraded_job :: "(string, string, nat) job" where
  "degraded_job =
     \<lparr>job_id = 0, job_status = Completed, progress = 100, job_query = query0,
      sourceResults =
        [(''finance'', \<lparr>state = Ok, data = Some ''{}'', error = None\<rparr>),
         (''news'', \<lparr>state = SrcError, data = None, error = Some Unreachable\<rparr>)],
      combinedInsight = Some \<lparr>insights = 2, degraded = True\<rparr>\<rparr>"

text \<open>A third run, in which both sources fail on their own, and the job it leaves.\<close>

definition failed_run :: "(string, string) event list" where
  "failed_run =
     [Submit query0, Dispatch 0, Resolve 0 ''finance'' (Failure Timeout),
      Resolve 0 ''news'' (Failure Unreachable)]"

definition failed_job :: "(string, string, nat) job" where
  "failed_job =
     \<lparr>job_id = 0, job_status = Failed, progress = 100, job_query = query0,
      sourceResults =
        [(''finance'', \<lparr>state = SrcTimeout, data = None, error = Some Timeout\<rparr>),
         (''news'', \<lparr>state = SrcError, data = None, error = Some Unreachable\<rparr>)],
      combinedInsight = None\<rparr>"

text \<open>The beginning of all three runs, and the job it leaves in the store.\<close>

definition dispatched :: "(string, string) event list" where
  "dispatched = [Submit query0, Dispatch 0]"

definition running_job :: "(string, string, nat) job" where
  "running_job =
     \<lparr>job_id = 0, job_status = Running, progress = 0, job_query = query0,
      sourceResults =
        [(''finance'', \<lparr>state = SrcPending, data = None, error = None\<rparr>),
         (''news'', \<lparr>state = SrcPending, data = None, error = None\<rparr>)],
      combinedInsight = None\<rparr>"

section \<open>Properties of the backend route\<close>

subsection \<open>Lookup in \<open>BACKEND_CONFIG\<close>\<close>

lemma map_of_BACKEND_CONFIG_None:
  "k \<notin> set service_names \<Longrightarrow> map_of (BACKEND_CONFIG penv) k = None"
  by (simp add: BACKEND_CONFIG_def service_names_def)

lemma map_of_BACKEND_CONFIG_url:
  "map_of url_variables k = Some v \<Longrightarrow>
   \<exists>c. map_of (BACKEND_CONFIG penv) k = Some c \<and> url c = or_default (penv v) []"
  by (auto simp add: BACKEND_CONFIG_def url_variables_def split: if_splits)

lemma url_variables_dom:
  "k \<in> set service_names \<Longrightarrow> \<exists>v. map_of url_variables k = Some v"
  by (auto simp add: url_variables_def service_names_def)

lemma get_property_own:
  "map_of (BACKEND_CONFIG penv) k = Some c \<Longrightarrow> get_property (BACKEND_CONFIG penv) k = Config c"
  by (simp add: get_property_def)

lemma get_property_Undefined_iff:
  "get_property (BACKEND_CONFIG penv) k = Undefined \<longleftrightarrow>
     k \<notin> set service_names \<and> k \<notin> set object_prototype_keys"
proof (cases "k \<in> set service_names")
  case True
  then obtain v where "map_of url_variables k = Some v"
    using url_variables_dom by blast
  then obtain c where "map_of (BACKEND_CONFIG penv) k = Some c"
    using map_of_BACKEND_CONFIG_url by blast
  with True show ?thesis by (simp add: get_property_def)
next
  case False
  then show ?thesis
    by (simp add: get_property_def map_of_BACKEND_CONFIG_None)
qed

subsection \<open>The three ways through the action\<close>

lemma action_invalid_service:
  assumes "admin_session req" and "form req = Some fd"
    and "get_property (BACKEND_CONFIG penv) (property_key (form_get fd ''service'')) = Undefined"
  shows "action penv http now req =
           (Responded (json (ErrorBody ''Invalid service selected'' None) 400), [])"
  using assms by (simp add: action_def Let_def)

lemma action_known_service:
  assumes "admin_session req" and "form req = Some fd"
    and "get_property (BACKEND_CONFIG penv) (property_key (form_get fd ''service'')) \<noteq> Undefined"
    and "call = \<lparr>target = url_of (get_property (BACKEND_CONFIG penv)
                                     (property_key (form_get fd ''service''))),
                  payload = \<lparr>query = form_get fd ''query'', timestamp = now\<rparr>,
                  config = None\<rparr>"
  shows "action penv http now req =
           (case http call of
              Inr d \<Rightarrow> (Responded (json (SuccessBody d (form_get fd ''service'')) 200), [call])
            | Inl e \<Rightarrow> (Responded (json (ErrorBody ''Failed to connect to backend service''
                                          (Some (details_of e))) 500), [call]))"
  using assms by (simp add: action_def Let_def split: sum.split)

lemma action_calls:
  "snd (action penv http now req) =
     (if admin_session req
      then (case form req of
              None \<Rightarrow> []
            | Some fd \<Rightarrow>
                if get_property (BACKEND_CONFIG penv) (property_key (form_get fd ''service''))
                     = Undefined
                then []
                else [\<lparr>target = url_of (get_property (BACKEND_CONFIG penv)
                                          (property_key (form_get fd ''service''))),
                       payload = \<lparr>query = form_get fd ''query'', timestamp = now\<rparr>,
                       config = None\<rparr>])
      else [])"
  by (simp add: action_def Let_def split: option.split sum.split)

lemma finance_request_facts:
  "admin_session (post_form finance_form)"
  "form (post_form finance_form) = Some finance_form"
  "form_get finance_form ''service'' = Some ''finance''"
  "form_get finance_form ''query'' = Some ''not a snapshot''"
  "get_property (BACKEND_CONFIG env0) ''finance'' =
     Config \<lparr>url = ''http://finance.test/api'',
             description = ''Financial data and currency analysis''\<rparr>"
  by (simp_all add: post_form_def finance_form_def form_get_def get_property_def
      BACKEND_CONFIG_def env0_def or_default_def)

lemma finance_known:
  "get_property (BACKEND_CONFIG env0) (property_key (form_get finance_form ''service''))
     \<noteq> Undefined"
  by (simp add: finance_request_facts property_key_def)

lemma finance_call_eq:
  "finance_call =
     \<lparr>target = url_of (get_property (BACKEND_CONFIG env0)
                        (property_key (form_get finance_form ''service''))),
      payload = \<lparr>query = form_get finance_form ''query'', timestamp = now0\<rparr>,
      config = None\<rparr>"
  by (simp add: finance_request_facts property_key_def finance_call_def)

lemma action_finance_up:
  "action env0 adapter_up now0 (post_form finance_form) =
     (Responded (json (SuccessBody ''{}'' (Some ''finance'')) 200), [finance_call])"
  using action_known_service [OF finance_request_facts(1,2) finance_known finance_call_eq,
      of adapter_up]
  by (simp add: adapter_up_def finance_request_facts)

lemma action_finance_down:
  "action env0 adapter_down now0 (post_form finance_form) =
     (Responded (json (ErrorBody ''Failed to connect to backend service''
                         (Some ''connect ECONNREFUSED'')) 500), [finance_call])"
  using action_known_service [OF finance_request_facts(1,2) finance_known finance_call_eq,
      of adapter_down]
  by (simp add: adapter_down_def details_of_def)


subsection \<open>Claims about the route\<close>

text \<open>
  Claim C1, as stated: for every valid submission the value returned to the caller does
  not depend on the result of any adapter fetch. The route contradicts it: the same
  request, which the route accepts, gets a different response when the adapter answers
  and when it fails.
\<close>

theorem C1_response_depends_on_adapter:
  "fst (action env0 adapter_up now0 (post_form finance_form)) \<noteq>
   fst (action env0 adapter_down now0 (post_form finance_form))"
  by (simp add: action_finance_up action_finance_down json_def)

text \<open>
  Claim C1, amended: for every authenticated form submission that names one of the six
  configured services, the action makes exactly one adapter call, waits for it, and its
  response is decided by the result of that call: the adapter's data under
  \<open>success\<close> with status 200 when the call resolves, the error body with status 500
  when it fails.
\<close>

theorem C1_action_awaits_adapter:
  assumes "admin_session req" and "form req = Some fd"
    and "form_get fd ''service'' = Some s" and "s \<in> set service_names"
  shows "\<exists>call. snd (action penv http now req) = [call] \<and>
           fst (action penv http now req) =
             (case http call of
                Inr d \<Rightarrow> Responded (json (SuccessBody d (Some s)) 200)
              | Inl e \<Rightarrow> Responded (json (ErrorBody ''Failed to connect to backend service''
                                            (Some (details_of e))) 500))"
proof -
  let ?sc = "get_property (BACKEND_CONFIG penv) (property_key (form_get fd ''service''))"
  let ?call = "\<lparr>target = url_of ?sc,
                 payload = \<lparr>query = form_get fd ''query'', timestamp = now\<rparr>,
                 config = None\<rparr>"
  from assms(3,4) have known: "?sc \<noteq> Undefined"
    by (simp add: get_property_Undefined_iff property_key_def)
  have "action penv http now req =
           (case http ?call of
              Inr d \<Rightarrow> (Responded (json (SuccessBody d (form_get fd ''service'')) 200), [?call])
            | Inl e \<Rightarrow> (Responded (json (ErrorBody ''Failed to connect to backend service''
                                          (Some (details_of e))) 500), [?call]))"
    using assms(1,2) known by (rule action_known_service) simp
  then show ?thesis
    using assms(3) by (cases "http ?call") simp_all
qed

theorem C1_action_awaits_adapter_witness:
  "admin_session (post_form finance_form) \<and>
   form (post_form finance_form) = Some finance_form \<and>
   form_get finance_form ''service'' = Some ''finance'' \<and>
   ''finance'' \<in> set service_names \<and>
   (\<exists>call. snd (action env0 adapter_down now0 (post_form finance_form)) = [call] \<and>
      fst (action env0 adapter_down now0 (post_form finance_form)) =
        (case adapter_down call of
           Inr d \<Rightarrow> Responded (json (SuccessBody d (Some ''finance'')) 200)
         | Inl e \<Rightarrow> Responded (json (ErrorBody ''Failed to connect to backend service''
                                       (Some (details_of e))) 500)))"
proof -
  have m: "''finance'' \<in> set service_names"
    by (simp add: service_names_def)
  from C1_action_awaits_adapter [OF finance_request_facts(1,2,3) m, of env0 adapter_down now0]
  show ?thesis
    using m by (simp add: finance_request_facts)
qed

text \<open>
  Claim C2, as stated: an adapter failure is never surfaced as an error response to the
  caller. The route contradicts it: when the finance adapter refuses the connection, the
  caller receives the error body with status 500.
\<close>

theorem C2_adapter_failure_surfaced:
  "adapter_down finance_call = Inl (Error ''connect ECONNREFUSED'') \<and>
   fst (action env0 adapter_down now0 (post_form finance_form)) =
     Responded \<lparr>content = ErrorBody ''Failed to connect to backend service''
                             (Some ''connect ECONNREFUSED''),
                status = 500\<rparr>"
  by (simp add: action_finance_down json_def adapter_down_def)

text \<open>
  Claim C2, amended: every failure of an adapter call is caught inside the action (the
  action does not throw) and is reported to the caller at once, as the response
  \<open>{error: "Failed to connect to backend service", details}\<close> with status 500, where
  \<open>details\<close> is the message of the thrown error or \<open>"Unknown error"\<close>.
\<close>

theorem C2_adapter_failure_is_500:
  assumes "c \<in> set (snd (action penv http now req))" and "http c = Inl e"
  shows "fst (action penv http now req) =
           Responded (json (ErrorBody ''Failed to connect to backend service''
                              (Some (details_of e))) 500)"
proof -
  have auth: "admin_session req"
  proof (rule ccontr)
    assume "\<not> admin_session req"
    with assms(1) show False by (simp add: action_calls)
  qed
  show ?thesis
  proof (cases "form req")
    case None
    with assms(1) auth show ?thesis by (simp add: action_calls)
  next
    case (Some fd)
    let ?sc = "get_property (BACKEND_CONFIG penv) (property_key (form_get fd ''service''))"
    have known: "?sc \<noteq> Undefined"
    proof
      assume "?sc = Undefined"
      with assms(1) auth Some show False by (simp add: action_calls)
    qed
    with assms(1) auth Some
    have c: "c = \<lparr>target = url_of ?sc,
                   payload = \<lparr>query = form_get fd ''query'', timestamp = now\<rparr>,
                   config = None\<rparr>"
      by (simp add: action_calls)
    from action_known_service [OF auth Some known c, of http] assms(2)
    show ?thesis by simp
  qed
qed

theorem C2_adapter_failure_is_500_witness:
  "finance_call \<in> set (snd (action env0 adapter_down now0 (post_form finance_form))) \<and>
   adapter_down finance_call = Inl (Error ''connect ECONNREFUSED'') \<and>
   fst (action env0 adapter_down now0 (post_form finance_form)) =
     Responded (json (ErrorBody ''Failed to connect to backend service''
                        (Some (details_of (Error ''connect ECONNREFUSED'')))) 500)"
proof -
  have c: "finance_call \<in> set (snd (action env0 adapter_down now0 (post_form finance_form)))"
    by (simp add: action_finance_down)
  have f: "adapter_down finance_call = Inl (Error ''connect ECONNREFUSED'')"
    by (simp add: adapter_down_def)
  from C2_adapter_failure_is_500 [OF c f] c f show ?thesis by simp
qed

text \<open>
  Claim C4, as stated: a submission whose commerce snapshot is malformed fails with a 4xx
  response. The route contradicts it: it never inspects the query, so a request for a
  configured service whose query is no snapshot at all is forwarded to the adapter and
  answered with status 200.
\<close>

theorem C4_malformed_query_accepted:
  "action env0 adapter_up now0
     (post_form [(''service'', ''finance''), (''query'', ''not a snapshot'')]) =
     (Responded \<lparr>content = SuccessBody ''{}'' (Some ''finance''), status = 200\<rparr>,
      [\<lparr>target = Some ''http://finance.test/api'',
        payload = \<lparr>query = Some ''not a snapshot'', timestamp = now0\<rparr>,
        config = None\<rparr>])"
  using action_finance_up by (simp add: json_def finance_form_def finance_call_def)

text \<open>
  Claim C4, amended: for every authenticated form submission whose \<open>service\<close> field is
  missing, or names neither one of the six configured services nor a property that
  every object inherits, the action answers \<open>{error: "Invalid service selected"}\<close> with
  status 400 and makes no adapter call, whatever the query. The query itself is not
  validated, and the route keeps no job record.
\<close>

theorem C4_invalid_service_rejected:
  assumes "admin_session req" and "form req = Some fd"
    and "property_key (form_get fd ''service'') \<notin> set service_names"
    and "property_key (form_get fd ''service'') \<notin> set object_prototype_keys"
  shows "action penv http now req =
           (Responded (json (ErrorBody ''Invalid service selected'' None) 400), [])"
  using assms by (simp add: action_invalid_service get_property_Undefined_iff)

theorem C4_invalid_service_rejected_witness:
  "admin_session (post_form [(''query'', ''q'')]) \<and>
   form (post_form [(''query'', ''q'')]) = Some [(''query'', ''q'')] \<and>
   property_key (form_get [(''query'', ''q'')] ''service'') \<notin> set service_names \<and>
   property_key (form_get [(''query'', ''q'')] ''service'') \<notin> set object_prototype_keys \<and>
   action env0 adapter_up now0 (post_form [(''query'', ''q'')]) =
     (Responded (json (ErrorBody ''Invalid service selected'' None) 400), [])"
proof -
  have a: "admin_session (post_form [(''query'', ''q'')])"
    and f: "form (post_form [(''query'', ''q'')]) = Some [(''query'', ''q'')]"
    by (simp_all add: post_form_def)
  have n: "property_key (form_get [(''query'', ''q'')] ''service'') \<notin> set service_names"
    by (simp add: property_key_def form_get_def service_names_def)
  have p: "property_key (form_get [(''query'', ''q'')] ''service'') \<notin> set object_prototype_keys"
    by (simp add: property_key_def form_get_def object_prototype_keys_def)
  from C4_invalid_service_rejected [OF a f n p, of env0 adapter_up now0] a f n p
  show ?thesis by simp
qed


text \<open>
  Claim C8: for every adapter call the action makes, the request body is exactly
  \<open>{query, timestamp}\<close>, the query field of the submitted form and the ISO timestamp
  taken at the call, and the adapter's reply is consumed either as the JSON payload
  (returned under \<open>data\<close>) or as an error (returned as the structured error body).
\<close>

theorem C8_adapter_request_body:
  assumes "c \<in> set (snd (action penv http now req))"
  shows "\<exists>fd. form req = Some fd \<and>
           payload c = \<lparr>query = form_get fd ''query'', timestamp = now\<rparr> \<and>
           fst (action penv http now req) =
             (case http c of
                Inr d \<Rightarrow> Responded (json (SuccessBody d (form_get fd ''service'')) 200)
              | Inl e \<Rightarrow> Responded (json (ErrorBody ''Failed to connect to backend service''
                                            (Some (details_of e))) 500))"
proof -
  have auth: "admin_session req"
  proof (rule ccontr)
    assume "\<not> admin_session req"
    with assms show False by (simp add: action_calls)
  qed
  show ?thesis
  proof (cases "form req")
    case None
    with assms auth show ?thesis by (simp add: action_calls)
  next
    case (Some fd)
    let ?sc = "get_property (BACKEND_CONFIG penv) (property_key (form_get fd ''service''))"
    have known: "?sc \<noteq> Undefined"
    proof
      assume "?sc = Undefined"
      with assms auth Some show False by (simp add: action_calls)
    qed
    with assms auth Some
    have c: "c = \<lparr>target = url_of ?sc,
                   payload = \<lparr>query = form_get fd ''query'', timestamp = now\<rparr>,
                   config = None\<rparr>"
      by (simp add: action_calls)
    then have body: "payload c = \<lparr>query = form_get fd ''query'', timestamp = now\<rparr>"
      by simp
    have "fst (action penv http now req) =
            (case http c of
               Inr d \<Rightarrow> Responded (json (SuccessBody d (form_get fd ''service'')) 200)
             | Inl e \<Rightarrow> Responded (json (ErrorBody ''Failed to connect to backend service''
                                           (Some (details_of e))) 500))"
      using action_known_service [OF auth Some known c, of http]
      by (cases "http c") simp_all
    with Some body show ?thesis by blast
  qed
qed

theorem C8_adapter_request_body_witness:
  "finance_call \<in> set (snd (action env0 adapter_up now0 (post_form finance_form))) \<and>
   (\<exists>fd. form (post_form finance_form) = Some fd \<and>
      payload finance_call = \<lparr>query = form_get fd ''query'', timestamp = now0\<rparr> \<and>
      fst (action env0 adapter_up now0 (post_form finance_form)) =
        (case adapter_up finance_call of
           Inr d \<Rightarrow> Responded (json (SuccessBody d (form_get fd ''service'')) 200)
         | Inl e \<Rightarrow> Responded (json (ErrorBody ''Failed to connect to backend service''
                                       (Some (details_of e))) 500)))"
proof -
  have c: "finance_call \<in> set (snd (action env0 adapter_up now0 (post_form finance_form)))"
    by (simp add: action_finance_up)
  from C8_adapter_request_body [OF c] c show ?thesis by simp
qed

text \<open>
  Claim C9, as stated: every source is configured with one base URL and one credential,
  and the adapter authenticates with it. The route contradicts the credential part: a
  configuration entry holds a URL and a description only, no credential variable of the
  environment reaches the configuration, and the call is made without any request
  configuration.
\<close>

theorem C9_no_credential:
  "env0 ''FINANCE_API_KEY'' = Some ''secret'' \<and>
   BACKEND_CONFIG (env0(''FINANCE_API_KEY'' := None)) = BACKEND_CONFIG env0 \<and>
   map config (snd (action env0 adapter_up now0 (post_form finance_form))) = [None]"
proof -
  have "env0 ''FINANCE_API_KEY'' = Some ''secret''"
    by (simp add: env0_def)
  moreover have "BACKEND_CONFIG (env0(''FINANCE_API_KEY'' := None)) = BACKEND_CONFIG env0"
    by (simp add: BACKEND_CONFIG_def env0_def)
  moreover have "map config (snd (action env0 adapter_up now0 (post_form finance_form))) = [None]"
    by (simp add: action_finance_up finance_call_def)
  ultimately show ?thesis by simp
qed

text \<open>
  Claim C9, amended: the configuration names exactly the six sources, each with exactly
  one base URL read from its environment variable (the empty string when the variable is
  unset or empty) and no credential; for every authenticated form submission naming
  one of them, the single adapter call targets that URL and carries no credentials.
\<close>

theorem C9_call_targets_configured_url:
  assumes "admin_session req" and "form req = Some fd"
    and "form_get fd ''service'' = Some s" and "map_of url_variables s = Some v"
  shows "map fst (BACKEND_CONFIG penv) = map fst url_variables \<and>
         snd (action penv http now req) =
           [\<lparr>target = Some (or_default (penv v) []),
             payload = \<lparr>query = form_get fd ''query'', timestamp = now\<rparr>,
             config = None\<rparr>]"
proof -
  from assms(4) obtain c where c: "map_of (BACKEND_CONFIG penv) s = Some c"
    and u: "url c = or_default (penv v) []"
    using map_of_BACKEND_CONFIG_url by blast
  from c have "get_property (BACKEND_CONFIG penv) s = Config c"
    by (rule get_property_own)
  with assms(1,2,3) u
  have "snd (action penv http now req) =
          [\<lparr>target = Some (or_default (penv v) []),
            payload = \<lparr>query = form_get fd ''query'', timestamp = now\<rparr>,
            config = None\<rparr>]"
    by (simp add: action_calls property_key_def)
  moreover have "map fst (BACKEND_CONFIG penv) = map fst url_variables"
    by (simp add: BACKEND_CONFIG_def url_variables_def)
  ultimately show ?thesis by simp
qed

theorem C9_call_targets_configured_url_witness:
  "admin_session (post_form finance_form) \<and>
   form (post_form finance_form) = Some finance_form \<and>
   form_get finance_form ''service'' = Some ''finance'' \<and>
   map_of url_variables ''finance'' = Some ''FINANCE_API_URL'' \<and>
   map fst (BACKEND_CONFIG env0) = map fst url_variables \<and>
   snd (action env0 adapter_up now0 (post_form finance_form)) =
     [\<lparr>target = Some (or_default (env0 ''FINANCE_API_URL'') []),
       payload = \<lparr>query = form_get finance_form ''query'', timestamp = now0\<rparr>,
       config = None\<rparr>]"
proof -
  have v: "map_of url_variables ''finance'' = Some ''FINANCE_API_URL''"
    by (simp add: url_variables_def)
  from C9_call_targets_configured_url [OF finance_request_facts(1,2,3) v, of env0 adapter_up now0]
  show ?thesis
    using v by (simp add: finance_request_facts)
qed

text \<open>
  Claim C10, at the request that breaks it: a form whose \<open>service\<close> field is
  \<open>constructor\<close>, a name outside the six configured services. The lookup finds the
  property every object inherits, so the handler does not answer with the 400
  validation error; it goes on to \<open>axios.post\<close> with an undefined URL.
\<close>

theorem C10_inherited_key_not_rejected:
  "''constructor'' \<notin> set service_names \<and>
   fst (action penv http now (post_form [(''service'', ''constructor''), (''query'', q)]))
     \<noteq> Responded (json (ErrorBody ''Invalid service selected'' None) 400) \<and>
   snd (action penv http now (post_form [(''service'', ''constructor''), (''query'', q)]))
     = [\<lparr>target = None, payload = \<lparr>query = Some q, timestamp = now\<rparr>, config = None\<rparr>]"
  by (simp add: action_def Let_def post_form_def form_get_def property_key_def
      get_property_def BACKEND_CONFIG_def object_prototype_keys_def service_names_def
      json_def split: sum.split)

section \<open>Properties of the job engine\<close>

subsection \<open>Counting and progress\<close>

lemma completedCount_le_length: "completedCount rs \<le> length rs"
  by (simp add: completedCount_def)

lemma all_terminal_count: "all_terminal rs \<Longrightarrow> completedCount rs = length rs"
  by (induction rs) (auto simp add: all_terminal_def completedCount_def)

lemma percent_nonneg: "0 \<le> percent c n"
proof (cases "n = 0")
  case True
  then show ?thesis by (simp add: percent_def)
next
  case False
  then have "0 < 2 * int n" by simp
  then show ?thesis
    unfolding percent_def by (simp only: pos_imp_zdiv_nonneg_iff)
qed

lemma percent_le_100:
  assumes "c \<le> n"
  shows "percent c n \<le> 100"
proof (cases "n = 0")
  case True
  then show ?thesis by (simp add: percent_def)
next
  case False
  then have pos: "0 < 2 * int n" by simp
  from assms have "200 * int c + int n \<le> 100 * (2 * int n) + int n" by simp
  then have "(200 * int c + int n) div (2 * int n)
               \<le> (100 * (2 * int n) + int n) div (2 * int n)"
    using pos by (rule zdiv_mono1)
  also from False have "(100 * (2 * int n) + int n) div (2 * int n) = 100"
    by simp
  finally show ?thesis by (simp add: percent_def)
qed

lemma percent_mono:
  assumes "c \<le> c'"
  shows "percent c n \<le> percent c' n"
proof (cases "n = 0")
  case True
  then show ?thesis by (simp add: percent_def)
next
  case False
  then have pos: "0 < 2 * int n" by simp
  from assms have "200 * int c + int n \<le> 200 * int c' + int n" by simp
  then show ?thesis
    unfolding percent_def using pos by (rule zdiv_mono1)
qed

lemma percent_zero: "percent 0 n = 0"
  by (simp add: percent_def)

lemma terminal_record_result: "terminal (state (record_result raw))"
proof (cases raw)
  case (Success d)
  then show ?thesis by simp
next
  case (Failure f)
  then show ?thesis by (cases f) simp_all
qed

lemma length_set_result: "length (set_result n r rs) = length rs"
  by (simp add: set_result_def)

lemma completedCount_set_result:
  assumes "terminal (state r)"
  shows "completedCount rs \<le> completedCount (set_result n r rs)"
proof (induction rs)
  case Nil
  show ?case by (simp add: completedCount_def set_result_def)
next
  case (Cons x rs)
  obtain m old where x: "x = (m, old)" by (cases x)
  from Cons.IH have "length (filter (\<lambda>(n, r). terminal (state r)) rs)
      \<le> length (filter (\<lambda>(n, r). terminal (state r)) (set_result n r rs))"
    by (simp add: completedCount_def)
  with assms x show ?case
    by (cases "m = n") (simp_all add: completedCount_def set_result_def)
qed

lemma completedCount_pending:
  "completedCount (map (\<lambda>n. (n, pending_result)) ns) = 0"
  by (induction ns) (simp_all add: completedCount_def pending_result_def)

subsection \<open>Each job operation keeps the invariant and never lowers progress\<close>

lemma new_job_inv:
  assumes "requested q \<noteq> []"
  shows "job_inv eng (new_job i q)"
proof -
  from assms have "remdups (requested q) \<noteq> []" by simp
  then show ?thesis
    by (simp add: job_inv_def new_job_def completedCount_pending)
qed

lemma dispatch_inv:
  assumes "job_inv eng j"
  shows "job_inv eng (dispatch j) \<and> progress j \<le> progress (dispatch j)"
proof (cases "job_status j = Pending")
  case True
  with assms have rs: "sourceResults j \<noteq> []" and c: "completedCount (sourceResults j) = 0"
    and p: "progress j = 0" and ci: "combinedInsight j = None"
    by (simp_all add: job_inv_def)
  have "\<not> all_terminal (sourceResults j)"
  proof
    assume "all_terminal (sourceResults j)"
    then have "completedCount (sourceResults j) = length (sourceResults j)"
      by (rule all_terminal_count)
    with c rs show False by simp
  qed
  with True rs c p ci show ?thesis
    by (simp add: job_inv_def dispatch_def percent_zero)
next
  case False
  with assms show ?thesis by (simp add: dispatch_def)
qed

lemma finish_inv:
  assumes "sourceResults j \<noteq> []" and "0 \<le> progress j" and "progress j \<le> 100"
    and "combinedInsight j = None"
  shows "job_inv eng (finish eng j) \<and> progress (finish eng j) = progress j"
proof (cases "any_succeeded (sourceResults j)")
  case True
  with assms show ?thesis
    by (simp add: finish_def aggregate_def job_inv_def)
next
  case False
  with assms show ?thesis
    by (simp add: finish_def aggregate_def job_inv_def)
qed

lemma resolve_inv:
  assumes "job_inv eng j"
  shows "job_inv eng (resolve eng n raw j) \<and> progress j \<le> progress (resolve eng n raw j)"
proof (cases "job_status j = Running \<and>
    map_option state (map_of (sourceResults j) n) = Some SrcPending")
  case False
  have "resolve eng n raw j = j"
    unfolding resolve_def using False by (rule if_not_P)
  with assms show ?thesis by simp
next
  case True
  let ?rs = "set_result n (record_result raw) (sourceResults j)"
  let ?j' = "j\<lparr>sourceResults := ?rs, progress := percent (completedCount ?rs) (length ?rs)\<rparr>"
  have res: "resolve eng n raw j = (if all_terminal ?rs then finish eng ?j' else ?j')"
    unfolding resolve_def Let_def using True by (rule if_P)
  from True assms have old: "progress j = percent (completedCount (sourceResults j))
      (length (sourceResults j))" and ci: "combinedInsight j = None"
    and ne: "sourceResults j \<noteq> []"
    by (simp_all add: job_inv_def)
  have len: "length ?rs = length (sourceResults j)"
    by (rule length_set_result)
  with ne have ne': "?rs \<noteq> []" by auto
  have up: "progress j \<le> progress ?j'"
    using old len percent_mono [OF completedCount_set_result [OF terminal_record_result]]
    by simp
  have lo: "0 \<le> progress ?j'" by (simp add: percent_nonneg)
  have hi: "progress ?j' \<le> 100"
    by (simp add: percent_le_100 completedCount_le_length)
  show ?thesis
  proof (cases "all_terminal ?rs")
    case all: True
    have "job_inv eng (finish eng ?j') \<and> progress (finish eng ?j') = progress ?j'"
      using ne' lo hi ci by (intro finish_inv) simp_all
    with up all show ?thesis
      by (simp add: res)
  next
    case some: False
    from True some ne' lo hi ci have "job_inv eng ?j'"
      by (simp add: job_inv_def)
    with up some show ?thesis
      by (simp add: res)
  qed
qed

lemma job_timeout_inv:
  assumes "job_inv eng j"
  shows "job_inv eng (job_timeout j) \<and> progress j \<le> progress (job_timeout j)"
  using assms by (simp add: job_timeout_def job_inv_def)

subsection \<open>Each event keeps the invariant of the store\<close>

lemma empty_store_inv: "store_inv eng empty_store"
  by (simp add: store_inv_def empty_store_def)

lemma mutate_inv:
  assumes inv: "store_inv eng s"
    and f: "\<And>j. job_inv eng j \<Longrightarrow> job_inv eng (f j) \<and> progress j \<le> progress (f j)"
    and m: "mutate s i f = (out, s')"
  shows "store_inv eng s' \<and>
         (\<forall>k j. jobs s k = Some j \<longrightarrow> (\<exists>j'. jobs s' k = Some j' \<and> progress j \<le> progress j'))"
proof (cases "jobs s i")
  case None
  with m have "s' = s" by (simp add: mutate_def update_def)
  with inv show ?thesis by simp
next
  case (Some j0)
  with m have s': "s' = s\<lparr>jobs := (jobs s)(i \<mapsto> f j0)\<rparr>"
    by (simp add: mutate_def update_def)
  from inv Some have "job_inv eng j0" by (simp add: store_inv_def)
  then have fj: "job_inv eng (f j0)" and up: "progress j0 \<le> progress (f j0)"
    using f by simp_all
  from inv Some have "i < next_id s"
    by (metis not_le_imp_less option.distinct(1) store_inv_def)
  with inv fj have "store_inv eng s'"
    unfolding s' store_inv_def by auto
  moreover have "\<forall>k j. jobs s k = Some j \<longrightarrow>
      (\<exists>j'. jobs s' k = Some j' \<and> progress j \<le> progress j')"
    unfolding s' using Some up by auto
  ultimately show ?thesis by simp
qed

lemma submit_inv:
  assumes inv: "store_inv eng s" and sub: "submit eng s q = (r, s')"
  shows "store_inv eng s' \<and>
         (\<forall>k j. jobs s k = Some j \<longrightarrow> (\<exists>j'. jobs s' k = Some j' \<and> progress j \<le> progress j'))"
proof (cases "requested q = [] \<or> \<not> well_formed eng (snapshot q)")
  case True
  with sub have "s' = s" by (auto simp add: submit_def)
  with inv show ?thesis by simp
next
  case False
  with sub have s': "s' = (create s (new_job (next_id s) q))\<lparr>next_id := Suc (next_id s)\<rparr>"
    by (auto simp add: submit_def)
  from False have nj: "job_inv eng (new_job (next_id s) q)"
    by (simp add: new_job_inv)
  have id: "job_id (new_job (next_id s) q :: ('a, 'b, 'c) job) = next_id s"
    by (simp add: new_job_def)
  from inv have fresh: "jobs s (next_id s) = None"
    by (simp add: store_inv_def)
  from inv nj have "store_inv eng s'"
    unfolding s' store_inv_def create_def id by auto
  moreover have "\<forall>k j. jobs s k = Some j \<longrightarrow>
      (\<exists>j'. jobs s' k = Some j' \<and> progress j \<le> progress j')"
    unfolding s' create_def id using fresh by auto
  ultimately show ?thesis by simp
qed

lemma step_inv:
  assumes inv: "store_inv eng s" and st: "step eng s ev = (out, s')"
  shows "store_inv eng s' \<and>
         (\<forall>k j. jobs s k = Some j \<longrightarrow> (\<exists>j'. jobs s' k = Some j' \<and> progress j \<le> progress j'))"
proof (cases ev)
  case (Submit q)
  obtain r s1 where sub: "submit eng s q = (r, s1)" by (cases "submit eng s q")
  with st Submit have "s' = s1" by (cases r) auto
  with submit_inv [OF inv sub] show ?thesis by simp
next
  case (Dispatch i)
  with st have m: "mutate s i dispatch = (out, s')" by simp
  show ?thesis by (rule mutate_inv [OF inv _ m]) (rule dispatch_inv)
next
  case (Resolve i n raw)
  with st have m: "mutate s i (resolve eng n raw) = (out, s')" by simp
  show ?thesis by (rule mutate_inv [OF inv _ m]) (rule resolve_inv)
next
  case (JobTimeout i)
  with st have m: "mutate s i job_timeout = (out, s')" by simp
  show ?thesis by (rule mutate_inv [OF inv _ m]) (rule job_timeout_inv)
next
  case (Status i)
  with st have "s' = s" by (auto simp add: status_of_def split: sum.splits)
  with inv show ?thesis by simp
qed

lemma run_inv:
  assumes "store_inv eng s" and "run eng s evs = (outs, s')"
  shows "store_inv eng s' \<and>
         (\<forall>k j. jobs s k = Some j \<longrightarrow> (\<exists>j'. jobs s' k = Some j' \<and> progress j \<le> progress j'))"
  using assms
proof (induction evs arbitrary: s outs)
  case Nil
  then show ?case by simp
next
  case (Cons ev evs)
  obtain out s1 where st: "step eng s ev = (out, s1)" by (cases "step eng s ev")
  obtain outs1 s2 where rn0: "run eng s1 evs = (outs1, s2)" by (cases "run eng s1 evs")
  from Cons.prems(2) st rn0 have s2: "s' = s2" by simp
  with rn0 have rn: "run eng s1 evs = (outs1, s')" by simp
  from step_inv [OF Cons.prems(1) st] have inv1: "store_inv eng s1"
    and mono1: "\<forall>k j. jobs s k = Some j \<longrightarrow>
      (\<exists>j'. jobs s1 k = Some j' \<and> progress j \<le> progress j')"
    by simp_all
  from Cons.IH [OF inv1 rn] s2 have inv2: "store_inv eng s2"
    and mono2: "\<forall>k j. jobs s1 k = Some j \<longrightarrow>
      (\<exists>j'. jobs s2 k = Some j' \<and> progress j \<le> progress j')"
    by simp_all
  have "\<forall>k j. jobs s k = Some j \<longrightarrow>
      (\<exists>j'. jobs s2 k = Some j' \<and> progress j \<le> progress j')"
  proof (intro allI impI)
    fix k j
    assume "jobs s k = Some j"
    with mono1 obtain j1 where j1: "jobs s1 k = Some j1" and le1: "progress j \<le> progress j1"
      by blast
    from mono2 j1 obtain j2 where "jobs s2 k = Some j2" and "progress j1 \<le> progress j2"
      by blast
    with le1 show "\<exists>j'. jobs s2 k = Some j' \<and> progress j \<le> progress j'"
      by auto
  qed
  with inv2 s2 show ?case by simp
qed

subsection \<open>Identifiers in the store are identifiers that were issued\<close>

lemma step_known_ids:
  assumes "step eng s ev = (out, s')" and "jobs s' i \<noteq> None"
  shows "jobs s i \<noteq> None \<or> out = Accepted i"
proof (cases ev)
  case (Submit q)
  with assms show ?thesis
    by (auto simp add: submit_def create_def new_job_def split: if_splits)
next
  case (Dispatch k)
  with assms show ?thesis
    by (auto simp add: mutate_def update_def split: option.splits if_splits)
next
  case (Resolve k n raw)
  with assms show ?thesis
    by (auto simp add: mutate_def update_def split: option.splits if_splits)
next
  case (JobTimeout k)
  with assms show ?thesis
    by (auto simp add: mutate_def update_def split: option.splits if_splits)
next
  case (Status k)
  with assms show ?thesis
    by (auto simp add: status_of_def split: sum.splits)
qed

lemma run_known_ids:
  assumes "run eng s evs = (outs, s')" and "jobs s' i \<noteq> None"
  shows "jobs s i \<noteq> None \<or> Accepted i \<in> set outs"
  using assms
proof (induction evs arbitrary: s outs)
  case Nil
  then show ?case by simp
next
  case (Cons ev evs)
  obtain out s1 where st: "step eng s ev = (out, s1)" by (cases "step eng s ev")
  obtain outs1 s2 where rn0: "run eng s1 evs = (outs1, s2)" by (cases "run eng s1 evs")
  from Cons.prems(1) st rn0 have eq: "s' = s2" "outs = out # outs1" by simp_all
  with rn0 have rn: "run eng s1 evs = (outs1, s')" by simp
  from Cons.IH [OF rn Cons.prems(2)]
  have "jobs s1 i \<noteq> None \<or> Accepted i \<in> set outs1" .
  then show ?case
  proof
    assume "jobs s1 i \<noteq> None"
    with step_known_ids [OF st] eq show ?thesis by auto
  next
    assume "Accepted i \<in> set outs1"
    with eq show ?thesis by simp
  qed
qed

subsection \<open>Only the job-level timeout makes a job \<open>timed_out\<close>\<close>

lemma dispatch_status:
  "job_status (dispatch j) = TimedOut \<Longrightarrow> job_status j = TimedOut"
  by (simp add: dispatch_def split: if_splits)

lemma finish_status: "job_status (finish eng j) \<noteq> TimedOut"
  by (simp add: finish_def split: option.split)

lemma resolve_status:
  assumes "job_status (resolve eng n raw j) = TimedOut"
  shows "job_status j = TimedOut"
proof (cases "job_status j = Running \<and>
    map_option state (map_of (sourceResults j) n) = Some SrcPending")
  case False
  have "resolve eng n raw j = j"
    unfolding resolve_def using False by (rule if_not_P)
  with assms show ?thesis by simp
next
  case True
  let ?rs = "set_result n (record_result raw) (sourceResults j)"
  let ?j' = "j\<lparr>sourceResults := ?rs, progress := percent (completedCount ?rs) (length ?rs)\<rparr>"
  have res: "resolve eng n raw j = (if all_terminal ?rs then finish eng ?j' else ?j')"
    unfolding resolve_def Let_def using True by (rule if_P)
  show ?thesis
  proof (cases "all_terminal ?rs")
    case all: True
    with res assms have "job_status (finish eng ?j') = TimedOut" by simp
    with finish_status show ?thesis by blast
  next
    case some: False
    with res assms True show ?thesis by simp
  qed
qed

lemma mutate_timed_out:
  assumes m: "mutate s k f = (out, s')"
    and f: "\<And>j. job_status (f j) = TimedOut \<Longrightarrow> job_status j = TimedOut"
    and j': "jobs s' i = Some j'" and t: "job_status j' = TimedOut"
  shows "\<exists>j. jobs s i = Some j \<and> job_status j = TimedOut"
proof (cases "jobs s k")
  case None
  with m have "s' = s" by (simp add: mutate_def update_def)
  with j' t show ?thesis by simp
next
  case (Some j0)
  with m have s': "s' = s\<lparr>jobs := (jobs s)(k \<mapsto> f j0)\<rparr>"
    by (simp add: mutate_def update_def)
  show ?thesis
  proof (cases "i = k")
    case True
    with s' j' have "j' = f j0" by simp
    with t f have "job_status j0 = TimedOut" by simp
    with Some True show ?thesis by simp
  next
    case False
    with s' j' have "jobs s i = Some j'" by simp
    with t show ?thesis by simp
  qed
qed

lemma step_timed_out:
  assumes st: "step eng s ev = (out, s')"
    and j': "jobs s' i = Some j'" and t: "job_status j' = TimedOut"
  shows "(\<exists>j. jobs s i = Some j \<and> job_status j = TimedOut) \<or> ev = JobTimeout i"
proof (cases ev)
  case (Submit q)
  show ?thesis
  proof (cases "requested q = [] \<or> \<not> well_formed eng (snapshot q)")
    case True
    with st Submit have "s' = s" by (auto simp add: submit_def)
    with j' t show ?thesis by simp
  next
    case False
    with st Submit
    have s': "s' = (create s (new_job (next_id s) q))\<lparr>next_id := Suc (next_id s)\<rparr>"
      by (auto simp add: submit_def)
    show ?thesis
    proof (cases "i = next_id s")
      case True
      with s' j' have "j' = new_job (next_id s) q"
        by (simp add: create_def new_job_def)
      with t show ?thesis by (simp add: new_job_def)
    next
      case False
      with s' j' have "jobs s i = Some j'"
        by (simp add: create_def new_job_def)
      with t show ?thesis by simp
    qed
  qed
next
  case (Dispatch k)
  with st have m: "mutate s k dispatch = (out, s')" by simp
  from mutate_timed_out [OF m dispatch_status j' t] show ?thesis by simp
next
  case (Resolve k n raw)
  with st have m: "mutate s k (resolve eng n raw) = (out, s')" by simp
  from mutate_timed_out [OF m resolve_status j' t] show ?thesis by simp
next
  case (JobTimeout k)
  show ?thesis
  proof (cases "i = k")
    case True
    with JobTimeout show ?thesis by simp
  next
    case False
    from st JobTimeout have m: "mutate s k job_timeout = (out, s')" by simp
    have "jobs s' i = jobs s i"
    proof (cases "jobs s k")
      case None
      with m show ?thesis by (simp add: mutate_def update_def)
    next
      case (Some j0)
      with m False show ?thesis by (auto simp add: mutate_def update_def)
    qed
    with j' t show ?thesis by simp
  qed
next
  case (Status k)
  with st have "s' = s" by (auto simp add: status_of_def split: sum.splits)
  with j' t show ?thesis by simp
qed

lemma run_timed_out:
  assumes "run eng s evs = (outs, s')"
    and "jobs s' i = Some j'" and "job_status j' = TimedOut"
  shows "(\<exists>j. jobs s i = Some j \<and> job_status j = TimedOut) \<or> JobTimeout i \<in> set evs"
  using assms
proof (induction evs arbitrary: s outs)
  case Nil
  then show ?case by simp
next
  case (Cons ev evs)
  obtain out s1 where st: "step eng s ev = (out, s1)" by (cases "step eng s ev")
  obtain outs1 s2 where rn0: "run eng s1 evs = (outs1, s2)" by (cases "run eng s1 evs")
  from Cons.prems(1) st rn0 have "s' = s2" by simp
  with rn0 have rn: "run eng s1 evs = (outs1, s')" by simp
  from Cons.IH [OF rn Cons.prems(2,3)]
  have "(\<exists>j. jobs s1 i = Some j \<and> job_status j = TimedOut) \<or> JobTimeout i \<in> set evs" .
  then show ?case
  proof
    assume "\<exists>j. jobs s1 i = Some j \<and> job_status j = TimedOut"
    then obtain j1 where "jobs s1 i = Some j1" and "job_status j1 = TimedOut" by blast
    from step_timed_out [OF st this] show ?thesis by auto
  next
    assume "JobTimeout i \<in> set evs"
    then show ?thesis by simp
  qed
qed

lemma timed_out_history:
  assumes "run eng empty_store evs = (outs, s)"
    and "jobs s i = Some j" and "job_status j = TimedOut"
  shows "JobTimeout i \<in> set evs"
  using run_timed_out [OF assms] by (simp add: empty_store_def)

subsection \<open>The example runs, evaluated\<close>

lemmas engine_eval =
  submit_def create_def new_job_def mutate_def update_def dispatch_def resolve_def
  set_result_def job_timeout_def expire_result_def finish_def aggregate_def
  all_terminal_def any_succeeded_def any_failed_def completedCount_def percent_def
  pending_result_def status_of_def get_def empty_store_def eng0_def query0_def Let_def

lemma run_dispatched:
  "jobs (snd (run eng0 empty_store dispatched)) 0 = Some running_job"
  by (simp add: dispatched_def running_job_def engine_eval)

lemma run_scenario:
  "jobs (snd (run eng0 empty_store scenario)) 0 = Some scenario_job"
  by (simp add: scenario_def scenario_job_def engine_eval)

lemma run_degraded:
  "jobs (snd (run eng0 empty_store degraded_run)) 0 = Some degraded_job"
  by (simp add: degraded_run_def degraded_job_def engine_eval)

lemma run_failed:
  "jobs (snd (run eng0 empty_store failed_run)) 0 = Some failed_job"
  by (simp add: failed_run_def failed_job_def engine_eval)

subsection \<open>Claims about the engine\<close>

text \<open>
  Claim C3, as stated: whenever all requested sources of a job are in a terminal state
  and at least one succeeded, the job's terminal status is \<open>completed\<close>. The engine of
  the specification contradicts it in the specification's own scenario: \<open>finance\<close>
  answers, the job-level timeout fires before \<open>news\<close> does, and the job ends
  \<open>timed_out\<close> with every source terminal and one of them successful.
\<close>

theorem C3_job_timeout_not_completed:
  "jobs (snd (run eng0 empty_store scenario)) 0 = Some scenario_job \<and>
   all_terminal (sourceResults scenario_job) \<and>
   any_succeeded (sourceResults scenario_job) \<and>
   job_status scenario_job = TimedOut"
  using run_scenario
  by (simp add: scenario_job_def all_terminal_def any_succeeded_def)

text \<open>
  Claim C3, amended: for every job on which no job-level timeout was fired and all of
  whose requested sources are in a terminal state: if at least one source succeeded
  the status is \<open>completed\<close> and the combined insight is present, with \<open>degraded\<close>
  true exactly when some source ended in error or timeout; if no source succeeded the
  status is \<open>failed\<close> and the combined insight is absent.
\<close>

theorem C3_terminal_status:
  assumes "run eng empty_store evs = (outs, s)" and "jobs s i = Some j"
    and "all_terminal (sourceResults j)" and "JobTimeout i \<notin> set evs"
  shows "if any_succeeded (sourceResults j)
         then job_status j = Completed \<and>
              combinedInsight j =
                Some \<lparr>insights = insight_of eng (sourceResults j),
                      degraded = any_failed (sourceResults j)\<rparr>
         else job_status j = Failed \<and> combinedInsight j = None"
proof -
  from run_inv [OF empty_store_inv assms(1)] have "store_inv eng s" by simp
  with assms(2) have inv: "job_inv eng j" by (simp add: store_inv_def)
  from assms(3) have full: "completedCount (sourceResults j) = length (sourceResults j)"
    by (rule all_terminal_count)
  show ?thesis
  proof (cases "job_status j")
    case Pending
    with inv have "completedCount (sourceResults j) = 0" and "sourceResults j \<noteq> []"
      by (simp_all add: job_inv_def)
    with full show ?thesis by simp
  next
    case Running
    with inv assms(3) show ?thesis by (simp add: job_inv_def)
  next
    case Completed
    with inv show ?thesis by (simp add: job_inv_def aggregate_def)
  next
    case Failed
    with inv show ?thesis by (simp add: job_inv_def)
  next
    case TimedOut
    from timed_out_history [OF assms(1,2) TimedOut] assms(4) show ?thesis by simp
  qed
qed

theorem C3_terminal_status_witness:
  "run eng0 empty_store degraded_run =
     (fst (run eng0 empty_store degraded_run), snd (run eng0 empty_store degraded_run)) \<and>
   jobs (snd (run eng0 empty_store degraded_run)) 0 = Some degraded_job \<and>
   all_terminal (sourceResults degraded_job) \<and>
   JobTimeout 0 \<notin> set degraded_run \<and>
   any_succeeded (sourceResults degraded_job) \<and>
   any_failed (sourceResults degraded_job) \<and>
   job_status degraded_job = Completed \<and>
   combinedInsight degraded_job =
     Some \<lparr>insights = insight_of eng0 (sourceResults degraded_job), degraded = True\<rparr> \<and>
   run eng0 empty_store failed_run =
     (fst (run eng0 empty_store failed_run), snd (run eng0 empty_store failed_run)) \<and>
   jobs (snd (run eng0 empty_store failed_run)) 0 = Some failed_job \<and>
   all_terminal (sourceResults failed_job) \<and>
   JobTimeout 0 \<notin> set failed_run \<and>
   \<not> any_succeeded (sourceResults failed_job) \<and>
   job_status failed_job = Failed \<and>
   combinedInsight failed_job = None"
proof -
  have r: "run eng0 empty_store degraded_run =
     (fst (run eng0 empty_store degraded_run), snd (run eng0 empty_store degraded_run))"
    by simp
  have t: "all_terminal (sourceResults degraded_job)"
    by (simp add: degraded_job_def all_terminal_def)
  have n: "JobTimeout 0 \<notin> set degraded_run"
    by (simp add: degraded_run_def)
  have ok: "any_succeeded (sourceResults degraded_job)"
    by (simp add: degraded_job_def any_succeeded_def)
  have bad: "any_failed (sourceResults degraded_job)"
    by (simp add: degraded_job_def any_failed_def)
  from C3_terminal_status [OF r run_degraded t n] ok bad
  have c: "job_status degraded_job = Completed \<and>
        combinedInsight degraded_job =
          Some \<lparr>insights = insight_of eng0 (sourceResults degraded_job), degraded = True\<rparr>"
    by simp
  have r': "run eng0 empty_store failed_run =
     (fst (run eng0 empty_store failed_run), snd (run eng0 empty_store failed_run))"
    by simp
  have t': "all_terminal (sourceResults failed_job)"
    by (simp add: failed_job_def all_terminal_def)
  have n': "JobTimeout 0 \<notin> set failed_run"
    by (simp add: failed_run_def)
  have none: "\<not> any_succeeded (sourceResults failed_job)"
    by (simp add: failed_job_def any_succeeded_def)
  from C3_terminal_status [OF r' run_failed t' n'] none
  have f: "job_status failed_job = Failed \<and> combinedInsight failed_job = None"
    by simp
  from r run_degraded t n ok bad c r' run_failed t' n' none f show ?thesis by blast
qed

text \<open>
  Claim C5: the status operation is read-only, for every identifier the store after the
  call is the store before it; and for every identifier that no submission has
  returned, it fails with JobNotFound, which the polling endpoint reports as 404.
\<close>

theorem C5_status_read_only_unknown_id:
  assumes "run eng empty_store evs = (outs, s)" and "Accepted i \<notin> set outs"
  shows "snd (step eng s (Status k)) = s \<and>
         step eng s (Status i) = (Refused JobNotFound, s) \<and>
         http_code (poll s i) = 404"
proof -
  have ro: "snd (step eng s (Status k)) = s"
    by (simp add: status_of_def split: sum.split)
  have "jobs s i = None"
  proof (rule ccontr)
    assume known: "jobs s i \<noteq> None"
    from run_known_ids [OF assms(1) known] assms(2)
    show False by (simp add: empty_store_def)
  qed
  then have "step eng s (Status i) = (Refused JobNotFound, s)"
    and "http_code (poll s i) = 404"
    by (simp_all add: status_of_def get_def poll_def)
  with ro show ?thesis by simp
qed

theorem C5_status_read_only_unknown_id_witness:
  "run eng0 empty_store scenario =
     (fst (run eng0 empty_store scenario), snd (run eng0 empty_store scenario)) \<and>
   Accepted 7 \<notin> set (fst (run eng0 empty_store scenario)) \<and>
   snd (step eng0 (snd (run eng0 empty_store scenario)) (Status 0))
     = snd (run eng0 empty_store scenario) \<and>
   step eng0 (snd (run eng0 empty_store scenario)) (Status 7)
     = (Refused JobNotFound, snd (run eng0 empty_store scenario)) \<and>
   http_code (poll (snd (run eng0 empty_store scenario)) 7) = 404"
proof -
  have r: "run eng0 empty_store scenario =
     (fst (run eng0 empty_store scenario), snd (run eng0 empty_store scenario))"
    by simp
  have n: "Accepted 7 \<notin> set (fst (run eng0 empty_store scenario))"
    by (simp add: scenario_def engine_eval)
  from C5_status_read_only_unknown_id [OF r n, of 0] r n show ?thesis by blast
qed

text \<open>
  Claim C6: the progress of a job is an integer between 0 and 100, and it never
  decreases: of two polls of the same job, separated by any sequence of submissions,
  dispatches, adapter resolutions, timeouts and further polls, the later one shows a
  progress at least as large as the earlier one.
\<close>

theorem C6_progress_monotone:
  assumes "run eng empty_store evs = (outs, s)" and "run eng s evs' = (outs', s')"
    and "fst (step eng s (Status i)) = Snapshot j"
  shows "\<exists>j'. fst (step eng s' (Status i)) = Snapshot j' \<and>
           0 \<le> progress j \<and> progress j \<le> progress j' \<and> progress j' \<le> 100"
proof -
  from run_inv [OF empty_store_inv assms(1)] have inv: "store_inv eng s" by simp
  from assms(3) have j: "jobs s i = Some j"
    by (cases "jobs s i") (simp_all add: status_of_def get_def)
  from run_inv [OF inv assms(2)] j obtain j' where inv': "store_inv eng s'"
    and j': "jobs s' i = Some j'" and le: "progress j \<le> progress j'"
    by blast
  from inv j have "0 \<le> progress j" by (simp add: store_inv_def job_inv_def)
  moreover from inv' j' have "progress j' \<le> 100" by (simp add: store_inv_def job_inv_def)
  moreover from j' have "fst (step eng s' (Status i)) = Snapshot j'"
    by (simp add: status_of_def get_def)
  ultimately show ?thesis using le by blast
qed

theorem C6_progress_monotone_witness:
  "run eng0 empty_store dispatched =
     (fst (run eng0 empty_store dispatched), snd (run eng0 empty_store dispatched)) \<and>
   run eng0 (snd (run eng0 empty_store dispatched))
       [Resolve 0 ''finance'' (Success ''{}''), Status 0] =
     (fst (run eng0 (snd (run eng0 empty_store dispatched))
             [Resolve 0 ''finance'' (Success ''{}''), Status 0]),
      snd (run eng0 (snd (run eng0 empty_store dispatched))
             [Resolve 0 ''finance'' (Success ''{}''), Status 0])) \<and>
   fst (step eng0 (snd (run eng0 empty_store dispatched)) (Status 0)) = Snapshot running_job \<and>
   (\<exists>j'. fst (step eng0 (snd (run eng0 (snd (run eng0 empty_store dispatched))
                                 [Resolve 0 ''finance'' (Success ''{}''), Status 0]))
                 (Status 0)) = Snapshot j' \<and>
      0 \<le> progress running_job \<and> progress running_job \<le> progress j' \<and>
      progress j' \<le> 100)"
proof -
  have r1: "run eng0 empty_store dispatched =
     (fst (run eng0 empty_store dispatched), snd (run eng0 empty_store dispatched))"
    by simp
  have r2: "run eng0 (snd (run eng0 empty_store dispatched))
       [Resolve 0 ''finance'' (Success ''{}''), Status 0] =
     (fst (run eng0 (snd (run eng0 empty_store dispatched))
             [Resolve 0 ''finance'' (Success ''{}''), Status 0]),
      snd (run eng0 (snd (run eng0 empty_store dispatched))
             [Resolve 0 ''finance'' (Success ''{}''), Status 0]))"
    by simp
  have p: "fst (step eng0 (snd (run eng0 empty_store dispatched)) (Status 0))
             = Snapshot running_job"
    using run_dispatched by (simp add: status_of_def get_def)
  from C6_progress_monotone [OF r1 r2 p] r1 r2 p show ?thesis by blast
qed

end
